theory Spec2Isabelle
  imports Main "HOL-Library.Multiset" "HOL-Library.AList" "HOL-Library.Product_Lexorder"
begin

section \<open>Balanced dice: the rollers, the simulation driver and the aggregator\<close>

text \<open>
  A shallow embedding of \<^verbatim>\<open>balanced-dice.py\<close> and \<^verbatim>\<open>balanced_dice_gui.py\<close>.
  Python integers are \<^typ>\<open>int\<close>, Python lists are HOL lists, the distribution dictionary
  and the frequency dictionary are association lists in insertion order, and every
  exception the code can raise is a value of \<open>error\<close>.
\<close>

subsection \<open>Errors and the random source\<close>

datatype error = IndexError | TypeError | KeyError | ValueError | AttributeError

text \<open>
  The module \<^verbatim>\<open>random\<close> is a library, not code of the repository. Its generator is an
  infinite tape of natural numbers, of which nothing is assumed: \<open>randbelow n\<close> reads the
  next cell and reduces it into \<open>{0..<n}\<close>, and the tape moves on by one cell. Every
  statement below is for all tapes, that is for every sequence of random draws.
\<close>

type_synonym rng = "nat \<Rightarrow> nat"

definition randbelow :: "nat \<Rightarrow> rng \<Rightarrow> nat \<times> rng" where
  "randbelow n g = (g 0 mod n, \<lambda>i. g (Suc i))"

text \<open>\<^verbatim>\<open>random.randint(a, b)\<close> is \<^verbatim>\<open>a + randbelow(b - a + 1)\<close>.\<close>

definition randint :: "int \<Rightarrow> int \<Rightarrow> rng \<Rightarrow> int \<times> rng" where
  "randint a b g = (case randbelow (nat (b - a + 1)) g of (k, g') \<Rightarrow> (a + int k, g'))"

text \<open>
  \<^verbatim>\<open>random.shuffle(x)\<close> is the library's Fisher-Yates loop
  \<^verbatim>\<open>for i in reversed(range(1, len(x))): j = randbelow(i + 1); x[i], x[j] = x[j], x[i]\<close>.
  \<open>shuffle_loop i\<close> runs the iterations \<open>i, i - 1, \<dots>, 1\<close>.
\<close>

fun shuffle_loop :: "nat \<Rightarrow> 'a list \<Rightarrow> rng \<Rightarrow> 'a list \<times> rng" where
  "shuffle_loop 0 x g = (x, g)"
| "shuffle_loop (Suc i) x g =
     (case randbelow (Suc i + 1) g of
        (j, g') \<Rightarrow> shuffle_loop i (x[Suc i := x ! j, j := x ! Suc i]) g')"

definition shuffle :: "'a list \<Rightarrow> rng \<Rightarrow> 'a list \<times> rng" where
  "shuffle x g = shuffle_loop (length x - 1) x g"

subsection \<open>Constants\<close>

definition EXPECTED_DIST_2_12 :: "(int \<times> int) list" where
  "EXPECTED_DIST_2_12 =
     [(2, 1), (3, 2), (4, 3), (5, 4), (6, 5), (7, 6), (8, 5), (9, 4), (10, 3), (11, 2), (12, 1)]"

subsection \<open>The rollers\<close>

definition roll_standard_dice :: "rng \<Rightarrow> int \<times> rng" where
  "roll_standard_dice g =
     (case randint 1 6 g of (d1, g1) \<Rightarrow>
      case randint 1 6 g1 of (d2, g2) \<Rightarrow> (d1 + d2, g2))"

text \<open>
  The loop \<^verbatim>\<open>for number, count in dist.items(): queue.extend([number]*count)\<close>;
  \<^verbatim>\<open>[number]*count\<close> is empty for a count that is not positive.
\<close>

fun extend_all :: "(int \<times> int) list \<Rightarrow> int list \<Rightarrow> int list" where
  "extend_all [] queue = queue"
| "extend_all ((number, cnt) # dist) queue =
     extend_all dist (queue @ replicate (nat cnt) number)"

definition create_balanced_queue :: "(int \<times> int) list \<Rightarrow> rng \<Rightarrow> int list \<times> rng" where
  "create_balanced_queue dist g = shuffle (extend_all dist []) g"

text \<open>\<^verbatim>\<open>list.pop()\<close>: removes and returns the last element, IndexError on an empty list.\<close>

definition list_pop :: "'a list \<Rightarrow> error + ('a \<times> 'a list)" where
  "list_pop q = (if q = [] then Inl IndexError else Inr (last q, butlast q))"

text \<open>
  \<open>roll_balanced_dice\<close> returns the roll, the queue after the pop, and the tape, which
  moves only when the queue was rebuilt.
\<close>

definition roll_balanced_dice :: "int list \<Rightarrow> rng \<Rightarrow> error + ((int \<times> int list) \<times> rng)" where
  "roll_balanced_dice queue g =
     (case (if queue = [] then create_balanced_queue EXPECTED_DIST_2_12 g else (queue, g)) of
        (queue', g') \<Rightarrow>
          (case list_pop queue' of
             Inl e \<Rightarrow> Inl e
           | Inr r \<Rightarrow> Inr (r, g')))"

subsection \<open>The simulation driver\<close>

text \<open>
  \<open>simulate_rolls\<close> takes either shape of roller: one called without arguments that
  returns the roll, or one called with the queue that returns the roll and the queue.
  Calling a roller with the wrong number of arguments is Python's TypeError.
\<close>

datatype roll_function =
    Nullary "rng \<Rightarrow> error + (int \<times> rng)"
  | Unary "int list \<Rightarrow> rng \<Rightarrow> error + ((int \<times> int list) \<times> rng)"

definition standard_roller :: roll_function where
  "standard_roller = Nullary (\<lambda>g. Inr (roll_standard_dice g))"

definition balanced_roller :: roll_function where
  "balanced_roller = Unary roll_balanced_dice"

text \<open>
  The loop state is \<open>(results, args, g)\<close>: the local list \<^verbatim>\<open>results\<close>, the local list
  \<^verbatim>\<open>args\<close> whose first cell holds the threaded queue, and the random tape.
  \<open>simulate_step\<close> is one iteration of the loop body.
\<close>

type_synonym sim_state = "int list \<times> int list list \<times> rng"

definition simulate_step :: "roll_function \<Rightarrow> sim_state \<Rightarrow> error + sim_state" where
  "simulate_step roll_fn st =
     (case st of (results, args, g) \<Rightarrow>
        if args \<noteq> [] then
          (case roll_fn of
             Unary f \<Rightarrow>
               (case args of
                  [queue] \<Rightarrow>
                    (case f queue g of
                       Inl e \<Rightarrow> Inl e
                     | Inr ((roll, queue'), g') \<Rightarrow> Inr (results @ [roll], args[0 := queue'], g'))
                | _ \<Rightarrow> Inl TypeError)
           | Nullary f \<Rightarrow> Inl TypeError)
        else
          (case roll_fn of
             Nullary f \<Rightarrow>
               (case f g of
                  Inl e \<Rightarrow> Inl e
                | Inr (roll, g') \<Rightarrow> Inr (results @ [roll], args, g'))
           | Unary f \<Rightarrow> Inl TypeError))"

fun simulate_loop :: "roll_function \<Rightarrow> nat \<Rightarrow> sim_state \<Rightarrow> error + sim_state" where
  "simulate_loop roll_fn 0 st = Inr st"
| "simulate_loop roll_fn (Suc k) st =
     (case simulate_step roll_fn st of
        Inl e \<Rightarrow> Inl e
      | Inr st' \<Rightarrow> simulate_loop roll_fn k st')"

text \<open>
  \<^verbatim>\<open>range(num_rolls)\<close> is empty for \<open>num_rolls \<le> 0\<close>. The Python function returns
  \<^verbatim>\<open>results\<close>; the model returns the whole final loop state, whose first component is
  that list, so that the threaded queue can be observed.
\<close>

definition simulate_rolls ::
  "roll_function \<Rightarrow> int \<Rightarrow> int list list \<Rightarrow> rng \<Rightarrow> error + sim_state" where
  "simulate_rolls roll_fn num_rolls args g = simulate_loop roll_fn (nat num_rolls) ([], args, g)"

subsection \<open>The cycle invariant's state space\<close>

text \<open>
  The queue states a program can hold: a freshly built cycle, and whatever a balanced
  roll leaves of a state already reached. The tapes are arbitrary at every step.
\<close>

inductive reachable :: "int list \<Rightarrow> bool" where
  fresh: "reachable (fst (create_balanced_queue EXPECTED_DIST_2_12 g))"
| rolled: "reachable queue \<Longrightarrow> roll_balanced_dice queue g = Inr ((roll, queue'), g')
     \<Longrightarrow> reachable queue'"

subsection \<open>The window of the interactive variant\<close>

text \<open>
  What \<^verbatim>\<open>plot_results\<close> and \<^verbatim>\<open>ax.clear()\<close> change on the matplotlib axes: the bar
  series, each a label with the eleven counts, the three captions and the legend.
\<close>

record axes =
  bars :: "(string \<times> (int \<times> int) list) list"
  xlabel :: string
  ylabel :: string
  title :: string
  legend :: bool

definition ax_clear :: axes where
  "ax_clear = \<lparr>bars = [], xlabel = [], ylabel = [], title = [], legend = False\<rparr>"

definition plot_results :: "int list \<Rightarrow> string \<Rightarrow> axes \<Rightarrow> axes" where
  "plot_results results label a =
     (let counts = map (\<lambda>i. (i, int (count_list results i))) [2..12]
      in a\<lparr>bars := bars a @ [(label, counts)],
           xlabel := ''Dice roll'',
           ylabel := ''Frequency'',
           title := ''Dice roll simulation'',
           legend := True\<rparr>)"

text \<open>
  The pieces of text that \<^verbatim>\<open>display_frequencies\<close> inserts into the text widget:
  \<^verbatim>\<open>"Frequencies for {dice_type}:\n"\<close>, \<^verbatim>\<open>" {number}: {frequency}\n"\<close> and \<^verbatim>\<open>"\n"\<close>.
\<close>

datatype text_item = Header string | Entry int int | Spacing

datatype message = Showerror string string | Showinfo string string

text \<open>
  The attributes of \<^verbatim>\<open>BalancedDiceGUI\<close> that its methods read or write.
  \<open>entry_rolls\<close> is the value of \<^verbatim>\<open>int(self.entry_rolls.get())\<close>, \<open>None\<close> when the
  conversion raises ValueError; \<open>plotted_dice\<close> is \<open>None\<close> while the attribute does not
  exist (\<^verbatim>\<open>__init__\<close> does not set it); \<open>canvas\<close> is what \<^verbatim>\<open>canvas.draw()\<close> rendered
  last; \<open>messages\<close> lists the message boxes shown so far, the oldest first.
\<close>

record gui =
  overlay_active :: bool
  entry_rolls :: "int option"
  dice_choice :: string
  overlay_choice :: bool
  ax :: axes
  canvas :: axes
  text_freq :: "text_item list"
  plotted_dice :: "string set option"
  messages :: "message list"

definition init_gui :: gui where
  "init_gui = \<lparr>overlay_active = False, entry_rolls = None, dice_choice = ''Standard'',
     overlay_choice = False, ax = ax_clear, canvas = ax_clear, text_freq = [],
     plotted_dice = None, messages = []\<rparr>"

definition clear_graph :: "gui \<Rightarrow> gui" where
  "clear_graph self =
     self\<lparr>ax := ax_clear,
          canvas := ax_clear,
          plotted_dice := Some {},
          overlay_choice := False,
          overlay_active := False,
          text_freq := [],
          messages := messages self @
            [Showinfo ''Graphs and frequencies cleared''
               ''Graphs and frequencies have been cleared. You can now plot new simulations.'']\<rparr>"

subsection \<open>The frequency aggregator\<close>

text \<open>Reading \<^verbatim>\<open>d[k]\<close> raises KeyError for a missing key.\<close>

definition dict_get :: "('k \<times> 'v) list \<Rightarrow> 'k \<Rightarrow> error + 'v" where
  "dict_get d k = (case map_of d k of None \<Rightarrow> Inl KeyError | Some v \<Rightarrow> Inr v)"

text \<open>
  The loop \<^verbatim>\<open>for result in results: if result in frequencies: frequencies[result] += 1\<close>.
\<close>

fun count_results :: "int list \<Rightarrow> (int \<times> int) list \<Rightarrow> error + (int \<times> int) list" where
  "count_results [] frequencies = Inr frequencies"
| "count_results (result # results) frequencies =
     (if result \<in> fst ` set frequencies then
        (case dict_get frequencies result of
           Inl e \<Rightarrow> Inl e
         | Inr c \<Rightarrow> count_results results (AList.update result (c + 1) frequencies))
      else count_results results frequencies)"

text \<open>
  \<open>calculate_frequencies\<close> is a method: it receives the window and returns, next to the
  dictionary, the window as it leaves it.
\<close>

definition calculate_frequencies ::
  "gui \<Rightarrow> int list \<Rightarrow> (error + (int \<times> int) list) \<times> gui" where
  "calculate_frequencies self results =
     (count_results results (map (\<lambda>i. (i, 0)) [2..12]), self)"

subsection \<open>Displaying and starting a simulation\<close>

fun frequency_lines :: "(string \<times> (int \<times> int) list) list \<Rightarrow> text_item list" where
  "frequency_lines [] = []"
| "frequency_lines ((dice_type, frequencies) # rest) =
     Header dice_type # map (\<lambda>(number, frequency). Entry number frequency) (sort frequencies)
       @ [Spacing] @ frequency_lines rest"

definition display_frequencies :: "gui \<Rightarrow> (string \<times> (int \<times> int) list) list \<Rightarrow> gui" where
  "display_frequencies self frequencies_dict =
     (let text = (if \<not> overlay_choice self then [] else text_freq self)
      in self\<lparr>text_freq :=
           (if frequencies_dict \<noteq> [] then text @ frequency_lines frequencies_dict else text)\<rparr>)"

text \<open>
  The two blocks that \<^verbatim>\<open>start_simulation\<close> runs for a dice type not yet plotted. Each
  takes and returns the window, the dictionary \<^verbatim>\<open>displayed_frequencies\<close> and the tape.
\<close>

type_synonym sim_ctx = "gui \<times> (string \<times> (int \<times> int) list) list \<times> rng"

definition add_plotted :: "string \<Rightarrow> gui \<Rightarrow> error + gui" where
  "add_plotted name self =
     (case plotted_dice self of
        None \<Rightarrow> Inl AttributeError
      | Some pd \<Rightarrow> Inr (self\<lparr>plotted_dice := Some (insert name pd)\<rparr>))"

definition run_standard :: "int \<Rightarrow> sim_ctx \<Rightarrow> error + sim_ctx" where
  "run_standard num_rolls ctx =
     (case ctx of (self, displayed_frequencies, g) \<Rightarrow>
        (case simulate_rolls standard_roller num_rolls [] g of
           Inl e \<Rightarrow> Inl e
         | Inr (standard_results, args, g') \<Rightarrow>
             (case calculate_frequencies self standard_results of
                (Inl e, self1) \<Rightarrow> Inl e
              | (Inr frequencies, self1) \<Rightarrow>
                  (case add_plotted ''Standard''
                          (self1\<lparr>ax := plot_results standard_results ''Standard dice'' (ax self1)\<rparr>) of
                     Inl e \<Rightarrow> Inl e
                   | Inr self2 \<Rightarrow>
                       Inr (self2,
                            AList.update ''Standard dice'' frequencies displayed_frequencies,
                            g')))))"

definition run_balanced :: "int \<Rightarrow> sim_ctx \<Rightarrow> error + sim_ctx" where
  "run_balanced num_rolls ctx =
     (case ctx of (self, displayed_frequencies, g) \<Rightarrow>
        (case create_balanced_queue EXPECTED_DIST_2_12 g of (balanced_queue, g0) \<Rightarrow>
        (case simulate_rolls balanced_roller num_rolls [balanced_queue] g0 of
           Inl e \<Rightarrow> Inl e
         | Inr (balanced_results, args, g') \<Rightarrow>
             (case calculate_frequencies self balanced_results of
                (Inl e, self1) \<Rightarrow> Inl e
              | (Inr frequencies, self1) \<Rightarrow>
                  (case add_plotted ''Balanced''
                          (self1\<lparr>ax := plot_results balanced_results ''Balanced dice'' (ax self1)\<rparr>) of
                     Inl e \<Rightarrow> Inl e
                   | Inr self2 \<Rightarrow>
                       Inr (self2,
                            AList.update ''Balanced dice'' frequencies displayed_frequencies,
                            g'))))))"

definition is_plotted :: "string \<Rightarrow> gui \<Rightarrow> bool" where
  "is_plotted name self = (case plotted_dice self of None \<Rightarrow> False | Some pd \<Rightarrow> name \<in> pd)"

definition set_overlay_active :: "sim_ctx \<Rightarrow> sim_ctx" where
  "set_overlay_active ctx = (case ctx of (self, d, g) \<Rightarrow> (self\<lparr>overlay_active := True\<rparr>, d, g))"

text \<open>The branch on \<^verbatim>\<open>self.dice_choice.get()\<close> of \<^verbatim>\<open>start_simulation\<close>.\<close>

definition run_simulations :: "int \<Rightarrow> sim_ctx \<Rightarrow> error + sim_ctx" where
  "run_simulations num_rolls ctx =
     (case ctx of (self, d, g) \<Rightarrow>
        if dice_choice self = ''Standard'' then
          (case (if \<not> is_plotted ''Standard'' self then run_standard num_rolls ctx else Inr ctx) of
             Inl e \<Rightarrow> Inl e
           | Inr (self1, d1, g1) \<Rightarrow>
               if overlay_choice self1 then
                 (if \<not> is_plotted ''Balanced'' self1
                  then map_sum id set_overlay_active (run_balanced num_rolls (self1, d1, g1))
                  else Inr (self1, d1, g1))
               else Inr (self1, d1, g1))
        else if dice_choice self = ''Balanced'' then
          (case (if \<not> is_plotted ''Balanced'' self then run_balanced num_rolls ctx else Inr ctx) of
             Inl e \<Rightarrow> Inl e
           | Inr (self1, d1, g1) \<Rightarrow>
               if overlay_choice self1 then
                 (if \<not> is_plotted ''Standard'' self1
                  then map_sum id set_overlay_active (run_standard num_rolls (self1, d1, g1))
                  else Inr (self1, d1, g1))
               else Inr (self1, d1, g1))
        else Inr ctx)"

definition start_simulation :: "gui \<Rightarrow> rng \<Rightarrow> error + (gui \<times> rng)" where
  "start_simulation self g =
     (case (case entry_rolls self of
              None \<Rightarrow> Inl ValueError
            | Some num_rolls \<Rightarrow> if num_rolls \<le> 0 then Inl ValueError else Inr num_rolls) of
        Inl e \<Rightarrow>
          Inr (self\<lparr>messages := messages self @
                 [Showerror ''Error'' ''Invalid input: Please input a valid number of rolls.'']\<rparr>, g)
      | Inr num_rolls \<Rightarrow>
          (let self1 = (if overlay_active self
                        then self\<lparr>messages := messages self @
                               [Showerror ''Clear required''
                                  ''Please clear the graph before plotting again.'']\<rparr>
                        else self);
               self2 = (if \<not> overlay_choice self1
                        then self1\<lparr>ax := ax_clear, overlay_active := False, plotted_dice := Some {}\<rparr>
                        else self1);
               self3 = (if plotted_dice self2 = None then self2\<lparr>plotted_dice := Some {}\<rparr> else self2)
           in (case run_simulations num_rolls (self3, [], g) of
                 Inl e \<Rightarrow> Inl e
               | Inr (self4, displayed_frequencies, g') \<Rightarrow>
                   (let self5 = display_frequencies self4 displayed_frequencies
                    in Inr (self5\<lparr>canvas := ax self5\<rparr>, g')))))"

section \<open>Auxiliary facts\<close>

lemma randbelow_less: "0 < n \<Longrightarrow> fst (randbelow n g) < n"
  by (simp add: randbelow_def)

lemma shuffle_loop_mset:
  "i < length x \<Longrightarrow> mset (fst (shuffle_loop i x g)) = mset x"
proof (induction i arbitrary: x g)
  case 0
  then show ?case by simp
next
  case (Suc i)
  obtain j g' where r: "randbelow (Suc i + 1) g = (j, g')" by (cases "randbelow (Suc i + 1) g")
  have "j < Suc i + 1" using randbelow_less [of "Suc i + 1" g] r by simp
  with Suc.prems have j: "j < length x" by simp
  let ?y = "x[Suc i := x ! j, j := x ! Suc i]"
  have "mset ?y = mset x" using mset_swap [OF j Suc.prems] .
  moreover have "i < length ?y" using Suc.prems by simp
  ultimately show ?case using Suc.IH [of ?y g'] r by simp
qed

lemma shuffle_mset: "mset (fst (shuffle x g)) = mset x"
proof (cases x)
  case Nil
  then show ?thesis by (simp add: shuffle_def)
next
  case (Cons a as)
  then show ?thesis by (simp add: shuffle_def shuffle_loop_mset)
qed

lemma extend_all_append:
  "extend_all dist queue = queue @ concat (map (\<lambda>(number, cnt). replicate (nat cnt) number) dist)"
  by (induction dist queue rule: extend_all.induct) simp_all

lemma expected_expansion:
  "extend_all EXPECTED_DIST_2_12 [] =
     [2, 3,3, 4,4,4, 5,5,5,5, 6,6,6,6,6, 7,7,7,7,7,7, 8,8,8,8,8, 9,9,9,9, 10,10,10, 11,11, 12]"
  by (simp add: EXPECTED_DIST_2_12_def eval_nat_numeral)

lemma balanced_step_pop:
  "simulate_step balanced_roller (results, [ys @ [y]], g) = Inr (results @ [y], [ys], g)"
  by (simp add: simulate_step_def balanced_roller_def roll_balanced_dice_def list_pop_def)

lemma balanced_loop_pops:
  "n \<le> length q \<Longrightarrow>
   simulate_loop balanced_roller n (results, [q], g) =
     Inr (results @ rev (drop (length q - n) q), [take (length q - n) q], g)"
proof (induction n arbitrary: results q)
  case 0
  then show ?case by simp
next
  case (Suc n)
  then obtain ys y where q: "q = ys @ [y]" by (cases q rule: rev_cases) auto
  with Suc.prems have len: "n \<le> length ys" by simp
  show ?case using Suc.IH [OF len, of "results @ [y]"] len
    by (simp add: q balanced_step_pop)
qed

lemma roll_balanced_nonempty:
  "roll_balanced_dice (ys @ [y]) g = Inr ((y, ys), g)"
  by (simp add: roll_balanced_dice_def list_pop_def)

lemma create_balanced_queue_mset:
  "mset (fst (create_balanced_queue dist g)) = mset (extend_all dist [])"
  by (simp add: create_balanced_queue_def shuffle_mset)

lemma fresh_cycle_length:
  "length (fst (create_balanced_queue EXPECTED_DIST_2_12 g)) = 36"
proof -
  have "size (mset (fst (create_balanced_queue EXPECTED_DIST_2_12 g))) =
          size (mset (extend_all EXPECTED_DIST_2_12 []))"
    by (simp only: create_balanced_queue_mset)
  then show ?thesis by (simp add: expected_expansion)
qed

lemma fresh_cycle_count:
  "count_list (fst (create_balanced_queue EXPECTED_DIST_2_12 g)) v =
     count_list (extend_all EXPECTED_DIST_2_12 []) v"
  by (simp only: create_balanced_queue_mset flip: count_mset)

lemma fresh_cycle_set:
  "set (fst (create_balanced_queue EXPECTED_DIST_2_12 g)) = {2..12}"
proof -
  have "set (fst (create_balanced_queue EXPECTED_DIST_2_12 g)) =
          set (extend_all EXPECTED_DIST_2_12 [])"
    using create_balanced_queue_mset [of EXPECTED_DIST_2_12 g] by (rule mset_eq_setD)
  also have "\<dots> = set [2..12]"
    by (simp add: expected_expansion)
  also have "\<dots> = {2..12}"
    by (rule set_upto)
  finally show ?thesis .
qed

lemma roll_balanced_empty:
  "roll_balanced_dice [] g =
     (case create_balanced_queue EXPECTED_DIST_2_12 g of
        (c, g') \<Rightarrow> Inr ((last c, butlast c), g'))"
proof -
  obtain c g' where c: "create_balanced_queue EXPECTED_DIST_2_12 g = (c, g')"
    by (cases "create_balanced_queue EXPECTED_DIST_2_12 g")
  have "length c = 36" using fresh_cycle_length [of g] c by simp
  then have "c \<noteq> []" by auto
  then show ?thesis by (simp add: roll_balanced_dice_def list_pop_def c)
qed

lemma roll_balanced_total:
  "\<exists>roll queue' g'. roll_balanced_dice queue g = Inr ((roll, queue'), g')"
proof (cases queue rule: rev_cases)
  case Nil
  then show ?thesis by (simp add: roll_balanced_empty split: prod.split)
next
  case (snoc ys y)
  then show ?thesis by (simp add: roll_balanced_nonempty)
qed

lemma balanced_step_total:
  "\<exists>roll queue' g'. simulate_step balanced_roller (results, [queue], g) =
     Inr (results @ [roll], [queue'], g')"
proof -
  obtain roll queue' g' where "roll_balanced_dice queue g = Inr ((roll, queue'), g')"
    using roll_balanced_total by blast
  then show ?thesis by (simp add: simulate_step_def balanced_roller_def)
qed

lemma balanced_loop_total:
  "\<exists>results' queue' g'. simulate_loop balanced_roller k (results, [queue], g) =
     Inr (results', [queue'], g')"
proof (induction k arbitrary: results queue g)
  case 0
  then show ?case by simp
next
  case (Suc k)
  obtain roll queue1 g1 where
    "simulate_step balanced_roller (results, [queue], g) = Inr (results @ [roll], [queue1], g1)"
    using balanced_step_total by blast
  then show ?case using Suc.IH [of "results @ [roll]" queue1 g1] by simp
qed

lemma update_map_keys:
  "distinct ks \<Longrightarrow> k \<in> set ks \<Longrightarrow>
   AList.update k v (map (\<lambda>i. (i, c i)) ks) = map (\<lambda>i. (i, (c(k := v)) i)) ks"
  by (induction ks) (auto simp: AList.update.simps)

lemma count_results_map:
  "distinct ks \<Longrightarrow>
   count_results results (map (\<lambda>i. (i, c i)) ks) =
     Inr (map (\<lambda>i. (i, c i + int (count_list results i))) ks)"
proof (induction results arbitrary: c)
  case Nil
  then show ?case by simp
next
  case (Cons r rs)
  show ?case
  proof (cases "r \<in> set ks")
    case True
    then have "map_of (map (\<lambda>i. (i, c i)) ks) r = Some (c r)"
      by (induction ks) auto
    then show ?thesis using True Cons.prems Cons.IH [of "c(r := c r + 1)"]
      by (simp add: dict_get_def update_map_keys image_image)
  next
    case False
    then show ?thesis using Cons.prems Cons.IH [of c] by (auto simp: image_image)
  qed
qed


lemma calculate_frequencies_eq:
  "fst (calculate_frequencies self results) =
     Inr (map (\<lambda>i. (i, int (count_list results i))) [2..12])"
  using count_results_map [of "[2..12]" results "\<lambda>i. 0"]
  by (simp only: calculate_frequencies_def fst_conv distinct_upto add_0)

lemma cycle_frequencies:
  assumes "mset results = mset (extend_all EXPECTED_DIST_2_12 [])"
  shows "fst (calculate_frequencies self results) = Inr EXPECTED_DIST_2_12"
proof -
  have "count_list results v = count_list (extend_all EXPECTED_DIST_2_12 []) v" for v
    using assms by (simp only: flip: count_mset)
  then have "map (\<lambda>i. (i, int (count_list results i))) [2..12] = EXPECTED_DIST_2_12"
    by (simp only: expected_expansion) (simp add: EXPECTED_DIST_2_12_def)
  then show ?thesis by (simp only: calculate_frequencies_eq)
qed

lemma balanced_step_rebuild:
  "simulate_step balanced_roller (results, [[]], g) =
     (case create_balanced_queue EXPECTED_DIST_2_12 g of
        (c, g') \<Rightarrow> Inr (results @ [last c], [butlast c], g'))"
  by (simp add: simulate_step_def balanced_roller_def roll_balanced_empty split: prod.split)

lemma full_cycle_from_fresh:
  assumes "create_balanced_queue EXPECTED_DIST_2_12 g = (c, g0)"
  shows "simulate_rolls balanced_roller 36 [c] g1 = Inr (rev c, [[]], g1)"
proof -
  have len: "length c = 36" using fresh_cycle_length [of g] assms by simp
  then have "nat 36 \<le> length c" by simp
  from balanced_loop_pops [OF this, of "[]" g1] len show ?thesis
    by (simp add: simulate_rolls_def)
qed

lemma full_cycle_from_empty:
  assumes "create_balanced_queue EXPECTED_DIST_2_12 g = (c, g0)"
  shows "simulate_rolls balanced_roller 36 [[]] g = Inr (rev c, [[]], g0)"
proof -
  have len: "length c = 36" using fresh_cycle_length [of g] assms by simp
  then have ne: "c \<noteq> []" by auto
  have n: "nat 36 = Suc 35" by simp
  have l35: "35 \<le> length (butlast c)" using len by simp
  have "simulate_loop balanced_roller (Suc 35) ([], [[]], g) =
          simulate_loop balanced_roller 35 ([last c], [butlast c], g0)"
    by (simp only: simulate_loop.simps balanced_step_rebuild assms prod.case sum.case append_Nil)
  also have "\<dots> = Inr ([last c] @ rev (butlast c), [[]], g0)"
    using balanced_loop_pops [OF l35, of "[last c]" g0] len by simp
  also have "[last c] @ rev (butlast c) = rev c"
    using ne by (cases c rule: rev_cases) simp_all
  finally show ?thesis by (simp only: simulate_rolls_def n)
qed

lemma mset_butlast_subset: "mset (butlast xs) \<subseteq># mset xs"
  by (cases xs rule: rev_cases) simp_all

lemma roll_balanced_queue_subset:
  assumes "roll_balanced_dice queue g = Inr ((roll, queue'), g')"
    and "mset queue \<subseteq># mset (extend_all EXPECTED_DIST_2_12 [])"
  shows "mset queue' \<subseteq># mset (extend_all EXPECTED_DIST_2_12 [])"
proof (cases queue rule: rev_cases)
  case Nil
  obtain c g0 where c: "create_balanced_queue EXPECTED_DIST_2_12 g = (c, g0)"
    by (cases "create_balanced_queue EXPECTED_DIST_2_12 g")
  have "queue' = butlast c" using assms(1) Nil c by (simp add: roll_balanced_empty)
  moreover have "mset c = mset (extend_all EXPECTED_DIST_2_12 [])"
    using create_balanced_queue_mset [of EXPECTED_DIST_2_12 g] c by simp
  ultimately show ?thesis using mset_butlast_subset [of c] by simp
next
  case (snoc ys y)
  then have "queue' = ys" using assms(1) by (simp add: roll_balanced_nonempty)
  then show ?thesis using assms(2) snoc
    by (metis mset_butlast_subset butlast_snoc subset_mset.order_trans)
qed

lemma reachable_subset:
  "reachable queue \<Longrightarrow> mset queue \<subseteq># mset (extend_all EXPECTED_DIST_2_12 [])"
proof (induction rule: reachable.induct)
  case (fresh g)
  then show ?case by (simp add: create_balanced_queue_mset)
next
  case (rolled queue g roll queue' g')
  then show ?case using roll_balanced_queue_subset by blast
qed

lemma expected_weights:
  "int (count_list (extend_all EXPECTED_DIST_2_12 []) v) =
     (case map_of EXPECTED_DIST_2_12 v of Some w \<Rightarrow> w | None \<Rightarrow> 0)"
  by (simp only: expected_expansion) (simp add: EXPECTED_DIST_2_12_def)

lemma fresh_cycle_zero_tape:
  "fst (create_balanced_queue EXPECTED_DIST_2_12 (\<lambda>i. 0)) =
     [3, 3, 4, 4, 4, 5, 5, 5, 5, 6, 6, 6, 6, 6, 7, 7, 7, 7, 7, 7, 8, 8, 8, 8, 8, 9, 9, 9, 9,
      10, 10, 10, 11, 11, 12, 2]"
  by code_simp

lemma simulate_loop_add:
  "simulate_loop roll_fn (k + m) st =
     (case simulate_loop roll_fn k st of
        Inl e \<Rightarrow> Inl e
      | Inr st' \<Rightarrow> simulate_loop roll_fn m st')"
  by (induction k arbitrary: st) (auto split: sum.splits)

lemma simulate_step_results:
  "simulate_step roll_fn (results, args, g) = Inr (results', args', g')
   \<Longrightarrow> \<exists>roll. results' = results @ [roll]"
  by (auto simp: simulate_step_def split: if_splits roll_function.splits list.splits sum.splits)

lemma simulate_loop_results:
  "simulate_loop roll_fn m (results, args, g) = Inr (results', args', g')
   \<Longrightarrow> \<exists>rs. results' = results @ rs \<and> length rs = m"
proof (induction m arbitrary: results args g)
  case 0
  then show ?case by simp
next
  case (Suc m)
  from Suc.prems obtain r1 a1 g1 where
    s: "simulate_step roll_fn (results, args, g) = Inr (r1, a1, g1)"
    and l: "simulate_loop roll_fn m (r1, a1, g1) = Inr (results', args', g')"
    by (auto split: sum.splits)
  from simulate_step_results [OF s] obtain roll where r1: "r1 = results @ [roll]" by blast
  from Suc.IH [OF l] obtain rs where "results' = r1 @ rs" "length rs = m" by blast
  with r1 have "results' = results @ (roll # rs) \<and> length (roll # rs) = Suc m" by simp
  then show ?case by blast
qed

lemma simulate_loop_nth:
  assumes total: "simulate_loop roll_fn n ([], args, g) = Inr (results, args', g')"
    and k: "k < n"
  shows "\<exists>args_k g_k args1 g1.
           simulate_loop roll_fn k ([], args, g) = Inr (take k results, args_k, g_k)
         \<and> simulate_step roll_fn (take k results, args_k, g_k) =
             Inr (take k results @ [results ! k], args1, g1)"
proof -
  define m where "m = n - Suc k"
  have n: "n = k + Suc m" using k by (simp add: m_def)
  from total obtain rk ak gk where
    lk: "simulate_loop roll_fn k ([], args, g) = Inr (rk, ak, gk)"
    and rest: "simulate_loop roll_fn (Suc m) (rk, ak, gk) = Inr (results, args', g')"
    unfolding n simulate_loop_add by (auto split: sum.splits)
  from rest obtain r1 a1 g1 where
    s: "simulate_step roll_fn (rk, ak, gk) = Inr (r1, a1, g1)"
    and l: "simulate_loop roll_fn m (r1, a1, g1) = Inr (results, args', g')"
    by (auto split: sum.splits)
  from simulate_loop_results [OF lk] have len: "length rk = k" by auto
  from simulate_step_results [OF s] obtain roll where r1: "r1 = rk @ [roll]" by blast
  from simulate_loop_results [OF l] obtain rs where res: "results = r1 @ rs" by blast
  have "take k results = rk" using len res r1 by simp
  moreover have "results ! k = roll" using len res r1 by (simp add: nth_append)
  ultimately show ?thesis using lk s r1 by auto
qed

lemma randint_1_6: "fst (randint 1 6 g) \<in> {1..6}"
proof -
  have "g 0 mod 6 < 6" by simp
  then show ?thesis by (simp add: randint_def randbelow_def)
qed

lemma roll_standard_range: "fst (roll_standard_dice g) \<in> {2..12}"
proof -
  obtain d1 g1 where a: "randint 1 6 g = (d1, g1)" by (cases "randint 1 6 g")
  obtain d2 g2 where b: "randint 1 6 g1 = (d2, g2)" by (cases "randint 1 6 g1")
  have "d1 \<in> {1..6}" "d2 \<in> {1..6}" using randint_1_6 [of g] randint_1_6 [of g1] a b by simp_all
  then show ?thesis by (simp add: roll_standard_dice_def a b)
qed

lemma standard_step:
  "simulate_step standard_roller (results, [], g) =
     Inr (results @ [fst (roll_standard_dice g)], [], snd (roll_standard_dice g))"
  by (simp add: simulate_step_def standard_roller_def split: prod.split)

lemma standard_loop:
  "\<exists>rs g'. simulate_loop standard_roller k (results, [], g) = Inr (results @ rs, [], g')
      \<and> length rs = k \<and> set rs \<subseteq> {2..12}"
proof (induction k arbitrary: results g)
  case 0
  then show ?case by simp
next
  case (Suc k)
  let ?r = "fst (roll_standard_dice g)"
  obtain rs g' where
    "simulate_loop standard_roller k (results @ [?r], [], snd (roll_standard_dice g)) =
       Inr ((results @ [?r]) @ rs, [], g')" "length rs = k" "set rs \<subseteq> {2..12}"
    using Suc.IH by blast
  then have "simulate_loop standard_roller (Suc k) (results, [], g) =
       Inr (results @ (?r # rs), [], g') \<and> length (?r # rs) = Suc k \<and> set (?r # rs) \<subseteq> {2..12}"
    using roll_standard_range [of g] by (simp add: standard_step)
  then show ?case by blast
qed

lemma roll_balanced_range:
  assumes "set queue \<subseteq> {2..12}"
  shows "\<exists>roll queue' g'. roll_balanced_dice queue g = Inr ((roll, queue'), g')
           \<and> roll \<in> {2..12} \<and> set queue' \<subseteq> {2..12}"
proof (cases queue rule: rev_cases)
  case Nil
  obtain c g0 where c: "create_balanced_queue EXPECTED_DIST_2_12 g = (c, g0)"
    by (cases "create_balanced_queue EXPECTED_DIST_2_12 g")
  have s: "set c = {2..12}" using fresh_cycle_set [of g] c by simp
  then have ne: "c \<noteq> []" by auto
  then have "last c \<in> {2..12}" using s last_in_set by blast
  moreover have "set (butlast c) \<subseteq> {2..12}" using s in_set_butlastD by fastforce
  ultimately show ?thesis using Nil c by (simp add: roll_balanced_empty)
next
  case (snoc ys y)
  then show ?thesis using assms by (simp add: roll_balanced_nonempty)
qed

lemma balanced_loop_range:
  assumes "set queue \<subseteq> {2..12}"
  shows "\<exists>rs queue' g'. simulate_loop balanced_roller k (results, [queue], g) =
            Inr (results @ rs, [queue'], g')
          \<and> length rs = k \<and> set rs \<subseteq> {2..12} \<and> set queue' \<subseteq> {2..12}"
  using assms
proof (induction k arbitrary: results queue g)
  case 0
  then show ?case by simp
next
  case (Suc k)
  obtain roll q1 g1 where r: "roll_balanced_dice queue g = Inr ((roll, q1), g1)"
    and v: "roll \<in> {2..12}" and q1: "set q1 \<subseteq> {2..12}"
    using roll_balanced_range [OF Suc.prems] by blast
  have s: "simulate_step balanced_roller (results, [queue], g) = Inr (results @ [roll], [q1], g1)"
    using r by (simp add: simulate_step_def balanced_roller_def)
  obtain rs q' g' where
    "simulate_loop balanced_roller k (results @ [roll], [q1], g1) =
       Inr ((results @ [roll]) @ rs, [q'], g')"
    "length rs = k" "set rs \<subseteq> {2..12}" "set q' \<subseteq> {2..12}"
    using Suc.IH [OF q1] by blast
  then have "simulate_loop balanced_roller (Suc k) (results, [queue], g) =
       Inr (results @ (roll # rs), [q'], g')
     \<and> length (roll # rs) = Suc k \<and> set (roll # rs) \<subseteq> {2..12} \<and> set q' \<subseteq> {2..12}"
    using v s by simp
  then show ?case by blast
qed

lemma standard_rolls_in_order:
  assumes total: "simulate_loop standard_roller n ([], [], g) = Inr (results, args', g')"
    and k: "k < n"
  shows "\<exists>g_k. simulate_loop standard_roller k ([], [], g) = Inr (take k results, [], g_k)
           \<and> results ! k = fst (roll_standard_dice g_k)"
proof -
  obtain args_k g_k args1 g1 where
    lk: "simulate_loop standard_roller k ([], [], g) = Inr (take k results, args_k, g_k)"
    and s: "simulate_step standard_roller (take k results, args_k, g_k) =
              Inr (take k results @ [results ! k], args1, g1)"
    using simulate_loop_nth [OF total k] by blast
  have a: "args_k = []" using standard_loop [of k "[]" g] lk by auto
  have "results ! k = fst (roll_standard_dice g_k)"
    using s unfolding a standard_step by simp
  then show ?thesis using lk a by blast
qed

lemma balanced_rolls_in_order:
  assumes total: "simulate_loop balanced_roller n ([], [queue], g) = Inr (results, args', g')"
    and k: "k < n"
  shows "\<exists>q_k g_k q1 g1.
           simulate_loop balanced_roller k ([], [queue], g) = Inr (take k results, [q_k], g_k)
           \<and> roll_balanced_dice q_k g_k = Inr ((results ! k, q1), g1)"
proof -
  obtain args_k g_k args1 g1 where
    lk: "simulate_loop balanced_roller k ([], [queue], g) = Inr (take k results, args_k, g_k)"
    and s: "simulate_step balanced_roller (take k results, args_k, g_k) =
              Inr (take k results @ [results ! k], args1, g1)"
    using simulate_loop_nth [OF total k] by blast
  obtain q_k where a: "args_k = [q_k]" using balanced_loop_total [of k "[]" queue g] lk by auto
  obtain roll q1 g2 where r: "roll_balanced_dice q_k g_k = Inr ((roll, q1), g2)"
    using roll_balanced_total by blast
  then have "roll = results ! k"
    using s unfolding a by (simp add: simulate_step_def balanced_roller_def)
  then show ?thesis using lk a r by blast
qed

lemma zero_tape_shuffle_loop: "snd (shuffle_loop i x (\<lambda>i. 0)) = (\<lambda>i. 0)"
  by (induction i arbitrary: x) (simp_all add: randbelow_def)

lemma create_zero_tape:
  "create_balanced_queue EXPECTED_DIST_2_12 (\<lambda>i. 0) =
     ([3, 3, 4, 4, 4, 5, 5, 5, 5, 6, 6, 6, 6, 6, 7, 7, 7, 7, 7, 7, 8, 8, 8, 8, 8, 9, 9, 9, 9,
       10, 10, 10, 11, 11, 12] @ [2], \<lambda>i. 0)"
proof -
  have "snd (create_balanced_queue EXPECTED_DIST_2_12 (\<lambda>i. 0)) = (\<lambda>i. 0)"
    by (simp only: create_balanced_queue_def shuffle_def zero_tape_shuffle_loop)
  then show ?thesis using fresh_cycle_zero_tape by (simp add: prod_eq_iff)
qed

lemma standard_one_roll_zero_tape:
  "simulate_rolls standard_roller 1 [] (\<lambda>i. 0) = Inr ([2], [], \<lambda>i. 0)"
  by (simp add: simulate_rolls_def standard_step roll_standard_dice_def randint_def randbelow_def)

lemma balanced_one_roll_zero_tape:
  "simulate_rolls balanced_roller 1 [ys @ [y]] g = Inr ([y], [ys], g)"
  by (simp add: simulate_rolls_def balanced_step_pop)

lemma run_standard_eq:
  assumes "simulate_rolls standard_roller n [] g = Inr (rs, a, g')"
    and "plotted_dice s = Some pd"
  shows "run_standard n (s, d, g) =
           Inr (s\<lparr>ax := plot_results rs ''Standard dice'' (ax s),
                   plotted_dice := Some (insert ''Standard'' pd)\<rparr>,
                AList.update ''Standard dice''
                  (map (\<lambda>i. (i, int (count_list rs i))) [2..12]) d,
                g')"
proof -
  have "calculate_frequencies s rs = (Inr (map (\<lambda>i. (i, int (count_list rs i))) [2..12]), s)"
    using calculate_frequencies_eq [of s rs] by (simp add: calculate_frequencies_def)
  then show ?thesis using assms by (simp add: run_standard_def add_plotted_def)
qed

lemma run_balanced_eq:
  assumes "create_balanced_queue EXPECTED_DIST_2_12 g = (q, g0)"
    and "simulate_rolls balanced_roller n [q] g0 = Inr (rs, a, g')"
    and "plotted_dice s = Some pd"
  shows "run_balanced n (s, d, g) =
           Inr (s\<lparr>ax := plot_results rs ''Balanced dice'' (ax s),
                   plotted_dice := Some (insert ''Balanced'' pd)\<rparr>,
                AList.update ''Balanced dice''
                  (map (\<lambda>i. (i, int (count_list rs i))) [2..12]) d,
                g')"
proof -
  have "calculate_frequencies s rs = (Inr (map (\<lambda>i. (i, int (count_list rs i))) [2..12]), s)"
    using calculate_frequencies_eq [of s rs] by (simp add: calculate_frequencies_def)
  then show ?thesis using assms by (simp add: run_balanced_def add_plotted_def)
qed

lemma counts_of_one_two:
  "map (\<lambda>i. (i, int (count_list [2] i))) [2..12] =
     [(2, 1), (3, 0), (4, 0), (5, 0), (6, 0), (7, 0), (8, 0), (9, 0), (10, 0), (11, 0), (12, 0)]"
  by simp

lemma lines_of_one_two:
  "map (\<lambda>(number, frequency). Entry number frequency)
     (sort [(2, 1), (3, 0), (4, 0), (5, 0), (6, 0), (7, 0), (8, 0), (9, 0), (10, 0), (11, 0),
            (12 :: int, 0 :: int)]) =
   [Entry 2 1, Entry 3 0, Entry 4 0, Entry 5 0, Entry 6 0, Entry 7 0, Entry 8 0, Entry 9 0,
    Entry 10 0, Entry 11 0, Entry 12 0]"
  by simp

lemma conflicting_simulation_replots:
  "start_simulation
     \<lparr>overlay_active = True, entry_rolls = Some 1, dice_choice = ''Standard'',
      overlay_choice = False,
      ax = \<lparr>bars = [(''Standard dice'',
                     [(2, 1), (3, 0), (4, 0), (5, 0), (6, 0), (7, 0), (8, 0), (9, 0), (10, 0),
                      (11, 0), (12, 0)]),
                    (''Balanced dice'',
                     [(2, 1), (3, 0), (4, 0), (5, 0), (6, 0), (7, 0), (8, 0), (9, 0), (10, 0),
                      (11, 0), (12, 0)])],
            xlabel = ''Dice roll'', ylabel = ''Frequency'',
            title = ''Dice roll simulation'', legend = True\<rparr>,
      canvas = \<lparr>bars = [(''Standard dice'',
                     [(2, 1), (3, 0), (4, 0), (5, 0), (6, 0), (7, 0), (8, 0), (9, 0), (10, 0),
                      (11, 0), (12, 0)]),
                    (''Balanced dice'',
                     [(2, 1), (3, 0), (4, 0), (5, 0), (6, 0), (7, 0), (8, 0), (9, 0), (10, 0),
                      (11, 0), (12, 0)])],
            xlabel = ''Dice roll'', ylabel = ''Frequency'',
            title = ''Dice roll simulation'', legend = True\<rparr>,
      text_freq =
        [Header ''Standard dice'', Entry 2 1, Entry 3 0, Entry 4 0, Entry 5 0, Entry 6 0,
         Entry 7 0, Entry 8 0, Entry 9 0, Entry 10 0, Entry 11 0, Entry 12 0, Spacing,
         Header ''Balanced dice'', Entry 2 1, Entry 3 0, Entry 4 0, Entry 5 0, Entry 6 0,
         Entry 7 0, Entry 8 0, Entry 9 0, Entry 10 0, Entry 11 0, Entry 12 0, Spacing],
      plotted_dice = Some {''Standard'', ''Balanced''}, messages = []\<rparr>
     (\<lambda>i. 0) =
   Inr (\<lparr>overlay_active = False, entry_rolls = Some 1, dice_choice = ''Standard'',
         overlay_choice = False,
         ax = \<lparr>bars = [(''Standard dice'',
                     [(2, 1), (3, 0), (4, 0), (5, 0), (6, 0), (7, 0), (8, 0), (9, 0), (10, 0),
                      (11, 0), (12, 0)])],
               xlabel = ''Dice roll'', ylabel = ''Frequency'',
               title = ''Dice roll simulation'', legend = True\<rparr>,
         canvas = \<lparr>bars = [(''Standard dice'',
                     [(2, 1), (3, 0), (4, 0), (5, 0), (6, 0), (7, 0), (8, 0), (9, 0), (10, 0),
                      (11, 0), (12, 0)])],
               xlabel = ''Dice roll'', ylabel = ''Frequency'',
               title = ''Dice roll simulation'', legend = True\<rparr>,
         text_freq =
           [Header ''Standard dice'', Entry 2 1, Entry 3 0, Entry 4 0, Entry 5 0, Entry 6 0,
            Entry 7 0, Entry 8 0, Entry 9 0, Entry 10 0, Entry 11 0, Entry 12 0, Spacing],
         plotted_dice = Some {''Standard''},
         messages =
           [Showerror ''Clear required'' ''Please clear the graph before plotting again.'']\<rparr>,
        \<lambda>i. 0)"
proof -
  let ?s3 = "\<lparr>overlay_active = False, entry_rolls = Some 1, dice_choice = ''Standard'',
      overlay_choice = False, ax = ax_clear,
      canvas = \<lparr>bars = [(''Standard dice'',
                     [(2, 1), (3, 0), (4, 0), (5, 0), (6, 0), (7, 0), (8, 0), (9, 0), (10, 0),
                      (11, 0), (12, 0)]),
                    (''Balanced dice'',
                     [(2, 1), (3, 0), (4, 0), (5, 0), (6, 0), (7, 0), (8, 0), (9, 0), (10, 0),
                      (11, 0), (12, 0)])],
            xlabel = ''Dice roll'', ylabel = ''Frequency'',
            title = ''Dice roll simulation'', legend = True\<rparr>,
      text_freq =
        [Header ''Standard dice'', Entry 2 1, Entry 3 0, Entry 4 0, Entry 5 0, Entry 6 0,
         Entry 7 0, Entry 8 0, Entry 9 0, Entry 10 0, Entry 11 0, Entry 12 0, Spacing,
         Header ''Balanced dice'', Entry 2 1, Entry 3 0, Entry 4 0, Entry 5 0, Entry 6 0,
         Entry 7 0, Entry 8 0, Entry 9 0, Entry 10 0, Entry 11 0, Entry 12 0, Spacing],
      plotted_dice = Some {},
      messages =
        [Showerror ''Clear required'' ''Please clear the graph before plotting again.'']\<rparr>"
  have p: "plotted_dice ?s3 = Some {}" by simp
  have r: "run_simulations 1 (?s3, [], \<lambda>i. 0) =
             Inr (?s3\<lparr>ax := plot_results [2] ''Standard dice'' (ax ?s3),
                      plotted_dice := Some (insert ''Standard'' {})\<rparr>,
                  AList.update ''Standard dice''
                    (map (\<lambda>i. (i, int (count_list [2] i))) [2..12]) [],
                  \<lambda>i. 0)"
    using run_standard_eq [OF standard_one_roll_zero_tape p, of "[]"]
    by (simp add: run_simulations_def is_plotted_def)
  show ?thesis
    unfolding start_simulation_def
    apply (simp add: Let_def)
    apply (simp only: r counts_of_one_two)
    apply (simp add: plot_results_def ax_clear_def display_frequencies_def counts_of_one_two
        lines_of_one_two del: upto.simps sort_key_simps)
    done
qed

lemma first_simulation_plots_two_series:
  "start_simulation (init_gui\<lparr>entry_rolls := Some 1, overlay_choice := True\<rparr>) (\<lambda>i. 0) =
     Inr (\<lparr>overlay_active = True, entry_rolls = Some 1, dice_choice = ''Standard'',
           overlay_choice = True,
           ax = \<lparr>bars = [(''Standard dice'',
                     [(2, 1), (3, 0), (4, 0), (5, 0), (6, 0), (7, 0), (8, 0), (9, 0), (10, 0),
                      (11, 0), (12, 0)]),
                    (''Balanced dice'',
                     [(2, 1), (3, 0), (4, 0), (5, 0), (6, 0), (7, 0), (8, 0), (9, 0), (10, 0),
                      (11, 0), (12, 0)])],
                 xlabel = ''Dice roll'', ylabel = ''Frequency'',
                 title = ''Dice roll simulation'', legend = True\<rparr>,
           canvas = \<lparr>bars = [(''Standard dice'',
                     [(2, 1), (3, 0), (4, 0), (5, 0), (6, 0), (7, 0), (8, 0), (9, 0), (10, 0),
                      (11, 0), (12, 0)]),
                    (''Balanced dice'',
                     [(2, 1), (3, 0), (4, 0), (5, 0), (6, 0), (7, 0), (8, 0), (9, 0), (10, 0),
                      (11, 0), (12, 0)])],
                 xlabel = ''Dice roll'', ylabel = ''Frequency'',
                 title = ''Dice roll simulation'', legend = True\<rparr>,
           text_freq =
             [Header ''Standard dice'', Entry 2 1, Entry 3 0, Entry 4 0, Entry 5 0, Entry 6 0,
              Entry 7 0, Entry 8 0, Entry 9 0, Entry 10 0, Entry 11 0, Entry 12 0, Spacing,
              Header ''Balanced dice'', Entry 2 1, Entry 3 0, Entry 4 0, Entry 5 0, Entry 6 0,
              Entry 7 0, Entry 8 0, Entry 9 0, Entry 10 0, Entry 11 0, Entry 12 0, Spacing],
           plotted_dice = Some {''Standard'', ''Balanced''}, messages = []\<rparr>, \<lambda>i. 0)"
proof -
  let ?s3 = "\<lparr>overlay_active = False, entry_rolls = Some 1, dice_choice = ''Standard'',
      overlay_choice = True, ax = ax_clear, canvas = ax_clear, text_freq = [],
      plotted_dice = Some {}, messages = []\<rparr>"
  let ?sA = "?s3\<lparr>ax := plot_results [2] ''Standard dice'' (ax ?s3),
                 plotted_dice := Some (insert ''Standard'' {})\<rparr>"
  let ?dA = "AList.update ''Standard dice''
               (map (\<lambda>i. (i, int (count_list [2] i))) [2..12]) []"
  let ?sB = "?sA\<lparr>ax := plot_results [2] ''Balanced dice'' (ax ?sA),
                 plotted_dice := Some (insert ''Balanced'' {''Standard''})\<rparr>"
  let ?dB = "AList.update ''Balanced dice''
               (map (\<lambda>i. (i, int (count_list [2] i))) [2..12]) ?dA"
  have p3: "plotted_dice ?s3 = Some {}" by simp
  have a: "run_standard 1 (?s3, [], \<lambda>i. 0) = Inr (?sA, ?dA, \<lambda>i. 0)"
    by (rule run_standard_eq [OF standard_one_roll_zero_tape p3])
  have pA: "plotted_dice ?sA = Some {''Standard''}" by simp
  have b: "run_balanced 1 (?sA, ?dA, \<lambda>i. 0) = Inr (?sB, ?dB, \<lambda>i. 0)"
    by (rule run_balanced_eq [OF create_zero_tape balanced_one_roll_zero_tape pA])
  have r: "run_simulations 1 (?s3, [], \<lambda>i. 0) = Inr (?sB\<lparr>overlay_active := True\<rparr>, ?dB, \<lambda>i. 0)"
    unfolding run_simulations_def
    by (simp add: is_plotted_def a [simplified] b [simplified] set_overlay_active_def)
  show ?thesis
    unfolding start_simulation_def
    apply (simp add: Let_def init_gui_def)
    apply (simp only: r counts_of_one_two)
    apply (simp add: plot_results_def ax_clear_def display_frequencies_def counts_of_one_two
        lines_of_one_two insert_commute del: upto.simps sort_key_simps)
    done
qed

lemma overlay_conflict_when_ticked:
  assumes "overlay_active s" and "overlay_choice s" and "plotted_dice s = Some pd"
    and "''Standard'' \<in> pd" and "''Balanced'' \<in> pd"
    and "entry_rolls s = Some n" and "0 < n"
  shows "start_simulation s g =
           Inr (s\<lparr>canvas := ax s,
                   messages := messages s @
                     [Showerror ''Clear required''
                        ''Please clear the graph before plotting again.'']\<rparr>, g)"
  using assms
  by (simp add: start_simulation_def run_simulations_def is_plotted_def display_frequencies_def
      Let_def)

lemma simulate_loop_Suc:
  "simulate_loop roll_fn (Suc k) st =
     (case simulate_loop roll_fn k st of
        Inl e \<Rightarrow> Inl e
      | Inr st' \<Rightarrow> simulate_step roll_fn st')"
  using simulate_loop_add [of roll_fn k "Suc 0" st] by (simp split: sum.splits)

lemma balanced_rolls_threaded:
  assumes total: "simulate_loop balanced_roller n ([], [queue], g) = Inr (results, args', g')"
    and k: "k < n"
  shows "\<exists>q_k g_k q1 g1.
           simulate_loop balanced_roller k ([], [queue], g) = Inr (take k results, [q_k], g_k)
           \<and> roll_balanced_dice q_k g_k = Inr ((results ! k, q1), g1)
           \<and> simulate_loop balanced_roller (Suc k) ([], [queue], g) =
               Inr (take (Suc k) results, [q1], g1)"
proof -
  obtain q_k g_k q1 g1 where
    lk: "simulate_loop balanced_roller k ([], [queue], g) = Inr (take k results, [q_k], g_k)"
    and r: "roll_balanced_dice q_k g_k = Inr ((results ! k, q1), g1)"
    using balanced_rolls_in_order [OF total k] by blast
  have "length results = n" using simulate_loop_results [OF total] by auto
  then have t: "take (Suc k) results = take k results @ [results ! k]"
    using k by (simp add: take_Suc_conv_app_nth)
  have "simulate_step balanced_roller (take k results, [q_k], g_k) =
          Inr (take k results @ [results ! k], [q1], g1)"
    using r by (simp add: simulate_step_def balanced_roller_def)
  then have "simulate_loop balanced_roller (Suc k) ([], [queue], g) =
               Inr (take (Suc k) results, [q1], g1)"
    by (simp only: simulate_loop_Suc lk t sum.case)
  with lk r show ?thesis by blast
qed

section \<open>Properties\<close>


text \<open>
  Claim C8 (zero-roll short-circuit). A request for zero rolls returns the empty outcome
  sequence and leaves the arguments, hence the balanced queue, and the random tape exactly
  as they were, for either shape of roller: nothing is popped and nothing is rebuilt.
\<close>

theorem simulate_rolls_zero:
  "simulate_rolls roll_fn 0 args g = Inr ([], args, g)"
  by (simp add: simulate_rolls_def)

text \<open>
  Claim C6 (build_cycle correctness). For every tape, hence every permutation the shuffle
  picks, the queue built from the distribution table is a permutation of the weighted
  expansion of the table: it has the same multiset of elements, its length is 36, the sum
  of the weights, and each outcome \<open>v\<close> from 2 to 12 occurs in it exactly \<open>weight v\<close>
  times, nothing else occurring.
\<close>

theorem create_balanced_queue_cycle:
  "mset (fst (create_balanced_queue EXPECTED_DIST_2_12 g)) =
     mset (concat (map (\<lambda>(number, cnt). replicate (nat cnt) number) EXPECTED_DIST_2_12))
   \<and> length (fst (create_balanced_queue EXPECTED_DIST_2_12 g)) = 36
   \<and> sum_list (map snd EXPECTED_DIST_2_12) = 36
   \<and> map (\<lambda>v. (v, int (count_list (fst (create_balanced_queue EXPECTED_DIST_2_12 g)) v))) [2..12]
       = EXPECTED_DIST_2_12
   \<and> set (fst (create_balanced_queue EXPECTED_DIST_2_12 g)) = {2..12}"
proof -
  have "mset (fst (create_balanced_queue EXPECTED_DIST_2_12 g)) =
     mset (concat (map (\<lambda>(number, cnt). replicate (nat cnt) number) EXPECTED_DIST_2_12))"
    by (simp only: create_balanced_queue_mset extend_all_append append_Nil)
  moreover have "sum_list (map snd EXPECTED_DIST_2_12) = 36"
    by (simp add: EXPECTED_DIST_2_12_def)
  moreover have
    "map (\<lambda>v. (v, int (count_list (fst (create_balanced_queue EXPECTED_DIST_2_12 g)) v))) [2..12]
       = EXPECTED_DIST_2_12"
    by (simp only: fresh_cycle_count expected_expansion) (simp add: EXPECTED_DIST_2_12_def)
  ultimately show ?thesis
    using fresh_cycle_length fresh_cycle_set by blast
qed

text \<open>
  Claim C7 (aggregator correctness). \<open>calculate_frequencies\<close> never fails and returns
  the dictionary whose keys are exactly 2 to 12, in this order, each with the number of
  occurrences of the key in the sequence, so that values outside the range are ignored.
  On the empty sequence all counts are zero; on \<open>[7, 7, 2]\<close> key 2 has count 1, key 7
  has count 2 and the others 0, also when out-of-range values are mixed in.
\<close>

theorem calculate_frequencies_counts:
  "fst (calculate_frequencies self results) =
     Inr (map (\<lambda>i. (i, int (count_list results i))) [2..12])
   \<and> fst (calculate_frequencies self []) =
     Inr [(2, 0), (3, 0), (4, 0), (5, 0), (6, 0), (7, 0), (8, 0), (9, 0), (10, 0), (11, 0), (12, 0)]
   \<and> fst (calculate_frequencies self [7, 7, 2]) =
     Inr [(2, 1), (3, 0), (4, 0), (5, 0), (6, 0), (7, 2), (8, 0), (9, 0), (10, 0), (11, 0), (12, 0)]
   \<and> fst (calculate_frequencies self [7, 13, 7, 1, 2, - 4]) =
     Inr [(2, 1), (3, 0), (4, 0), (5, 0), (6, 0), (7, 2), (8, 0), (9, 0), (10, 0), (11, 0), (12, 0)]"
  by (simp add: calculate_frequencies_eq)

text \<open>
  Claim C9 (determinism of aggregation). The dictionary that \<open>calculate_frequencies\<close>
  returns depends on the outcome sequence only: two calls on the same sequence, from any
  two states of the window, return the same dictionary, and the call leaves the window
  as it was.
\<close>

theorem calculate_frequencies_pure:
  "fst (calculate_frequencies self1 results) = fst (calculate_frequencies self2 results)
   \<and> snd (calculate_frequencies self1 results) = self1
   \<and> snd (calculate_frequencies self2 results) = self2"
  by (simp add: calculate_frequencies_def)

text \<open>
  Claim C10 (LIFO pop order). For a queue \<open>q\<close> and \<open>1 \<le> n \<le> length q\<close>, simulating
  \<open>n\<close> balanced rolls from \<open>q\<close> returns the last \<open>n\<close> elements of \<open>q\<close> in reverse
  order, and the threaded queue is then the first \<open>length q - n\<close> elements of \<open>q\<close> in
  their order; the random tape is not read.
\<close>

theorem balanced_rolls_lifo:
  assumes "1 \<le> n" and "n \<le> int (length q)"
  shows "simulate_rolls balanced_roller n [q] g =
           Inr (rev (drop (length q - nat n) q), [take (length q - nat n) q], g)"
proof -
  have "nat n \<le> length q" using assms by simp
  then show ?thesis
    using balanced_loop_pops [of "nat n" q "[]" g] by (simp add: simulate_rolls_def)
qed

theorem balanced_rolls_lifo_witness:
  "(1::int) \<le> 2 \<and> (2::int) \<le> int (length [5, 9, 3, 7 :: int])
   \<and> simulate_rolls balanced_roller 2 [[5, 9, 3, 7]] (\<lambda>i. 0) = Inr ([7, 3], [[5, 9]], \<lambda>i. 0)"
  using balanced_rolls_lifo [of 2 "[5, 9, 3, 7]" "\<lambda>i. 0"] by simp

text \<open>
  Claim C4 (self-healing). \<open>roll_balanced_dice\<close> returns a roll for every queue and
  every tape. On the empty queue it first builds a fresh cycle, of length 36, and pops
  from that; on a queue that is not empty it pops the last element and builds nothing.
  Hence \<open>n\<close> balanced rolls from any starting queue complete without an error, for
  every \<open>n\<close>: the simulation returns exactly \<open>n\<close> outcomes, and for each \<open>k < n\<close> the
  outcome \<open>k\<close> is the roll that \<open>roll_balanced_dice\<close> returns on the queue and tape
  threaded through the first \<open>k\<close> rolls, whose queue and tape are the ones threaded on.
  So a roll that starts on the empty queue is a roll on a rebuilt cycle.
\<close>

theorem roll_balanced_self_healing:
  "(\<exists>roll queue' g'. roll_balanced_dice queue g = Inr ((roll, queue'), g'))
   \<and> roll_balanced_dice [] g =
       (case create_balanced_queue EXPECTED_DIST_2_12 g of
          (c, g') \<Rightarrow> Inr ((last c, butlast c), g'))
   \<and> length (fst (create_balanced_queue EXPECTED_DIST_2_12 g)) = 36
   \<and> roll_balanced_dice (ys @ [y]) g = Inr ((y, ys), g)
   \<and> (\<exists>results queue' g'.
         simulate_rolls balanced_roller n [queue] g = Inr (results, [queue'], g')
       \<and> length results = nat n
       \<and> (\<forall>k<nat n. \<exists>q_k g_k q1 g1.
              simulate_rolls balanced_roller (int k) [queue] g = Inr (take k results, [q_k], g_k)
            \<and> roll_balanced_dice q_k g_k = Inr ((results ! k, q1), g1)
            \<and> simulate_rolls balanced_roller (int (Suc k)) [queue] g =
                Inr (take (Suc k) results, [q1], g1)))"
proof -
  obtain rs q' g' where
    t: "simulate_loop balanced_roller (nat n) ([], [queue], g) = Inr (rs, [q'], g')"
    using balanced_loop_total [of "nat n" "[]" queue g] by blast
  have l: "length rs = nat n" using simulate_loop_results [OF t] by auto
  have o: "\<forall>k<nat n. \<exists>q_k g_k q1 g1.
              simulate_rolls balanced_roller (int k) [queue] g = Inr (take k rs, [q_k], g_k)
            \<and> roll_balanced_dice q_k g_k = Inr ((rs ! k, q1), g1)
            \<and> simulate_rolls balanced_roller (int (Suc k)) [queue] g =
                Inr (take (Suc k) rs, [q1], g1)"
    using balanced_rolls_threaded [OF t] by (simp only: simulate_rolls_def nat_int) blast
  have sim: "\<exists>results queue' g'.
         simulate_rolls balanced_roller n [queue] g = Inr (results, [queue'], g')
       \<and> length results = nat n
       \<and> (\<forall>k<nat n. \<exists>q_k g_k q1 g1.
              simulate_rolls balanced_roller (int k) [queue] g = Inr (take k results, [q_k], g_k)
            \<and> roll_balanced_dice q_k g_k = Inr ((results ! k, q1), g1)
            \<and> simulate_rolls balanced_roller (int (Suc k)) [queue] g =
                Inr (take (Suc k) results, [q1], g1))"
    using t l o unfolding simulate_rolls_def by blast
  show ?thesis
    using roll_balanced_total [of queue g] roll_balanced_empty [of g] fresh_cycle_length [of g]
      roll_balanced_nonempty [of ys y g] sim
    by (intro conjI)
qed

theorem roll_balanced_self_healing_witness:
  "\<exists>results queue' g'.
      simulate_rolls balanced_roller 3 [[3, 7]] (\<lambda>i. 0) = Inr (results, [queue'], g')
    \<and> length results = nat 3
    \<and> (2::nat) < nat 3
    \<and> (\<exists>g_k q1 g1.
          simulate_rolls balanced_roller (int 2) [[3, 7]] (\<lambda>i. 0) = Inr (take 2 results, [[]], g_k)
        \<and> roll_balanced_dice [] g_k = Inr ((results ! 2, q1), g1)
        \<and> simulate_rolls balanced_roller (int (Suc 2)) [[3, 7]] (\<lambda>i. 0) =
            Inr (take (Suc 2) results, [q1], g1))"
proof -
  have k: "(2::nat) < nat 3" by simp
  have two: "simulate_rolls balanced_roller (int 2) [[3, 7]] (\<lambda>i. 0) = Inr ([7, 3], [[]], \<lambda>i. 0)"
    using balanced_loop_pops [of 2 "[3, 7]" "[]" "\<lambda>i. 0"] by (simp add: simulate_rolls_def)
  from roll_balanced_self_healing [of "[3, 7]" "\<lambda>i. 0" "[]" 0 3]
  obtain results queue' g' where
    t: "simulate_rolls balanced_roller 3 [[3, 7]] (\<lambda>i. 0) = Inr (results, [queue'], g')"
    and l: "length results = nat 3"
    and o: "\<forall>k<nat 3. \<exists>q_k g_k q1 g1.
              simulate_rolls balanced_roller (int k) [[3, 7]] (\<lambda>i. 0) =
                Inr (take k results, [q_k], g_k)
            \<and> roll_balanced_dice q_k g_k = Inr ((results ! k, q1), g1)
            \<and> simulate_rolls balanced_roller (int (Suc k)) [[3, 7]] (\<lambda>i. 0) =
                Inr (take (Suc k) results, [q1], g1)"
    by blast
  from o k obtain q_k g_k q1 g1 where
    a: "simulate_rolls balanced_roller (int 2) [[3, 7]] (\<lambda>i. 0) = Inr (take 2 results, [q_k], g_k)"
    and b: "roll_balanced_dice q_k g_k = Inr ((results ! 2, q1), g1)"
    and c: "simulate_rolls balanced_roller (int (Suc 2)) [[3, 7]] (\<lambda>i. 0) =
              Inr (take (Suc 2) results, [q1], g1)"
    by blast
  from a two have "q_k = []" by simp
  with a b c t l k show ?thesis by blast
qed

text \<open>
  Claim C1 (cycle fidelity). Thirty-six balanced rolls that start at a cycle boundary, be
  it the queue that \<open>create_balanced_queue\<close> has just built or the empty queue that the
  first roll rebuilds, end with the queue empty again, and aggregating their outcomes
  gives exactly the distribution table: each value from 2 to 12 with its weight, 7 six
  times, 2 once and 12 once. This holds for every tape, that is whichever permutation
  the shuffle picks.
\<close>

theorem cycle_fidelity:
  "(case create_balanced_queue EXPECTED_DIST_2_12 g of
      (balanced_queue, g0) \<Rightarrow>
        (\<exists>results. simulate_rolls balanced_roller 36 [balanced_queue] g0 = Inr (results, [[]], g0)
           \<and> fst (calculate_frequencies self results) = Inr EXPECTED_DIST_2_12
           \<and> count_list results 7 = 6 \<and> count_list results 2 = 1 \<and> count_list results 12 = 1))
   \<and> (\<exists>results g'. simulate_rolls balanced_roller 36 [[]] g = Inr (results, [[]], g')
           \<and> fst (calculate_frequencies self results) = Inr EXPECTED_DIST_2_12
           \<and> count_list results 7 = 6 \<and> count_list results 2 = 1 \<and> count_list results 12 = 1)"
proof -
  obtain c g0 where c: "create_balanced_queue EXPECTED_DIST_2_12 g = (c, g0)"
    by (cases "create_balanced_queue EXPECTED_DIST_2_12 g")
  have m: "mset (rev c) = mset (extend_all EXPECTED_DIST_2_12 [])"
    using create_balanced_queue_mset [of EXPECTED_DIST_2_12 g] c by simp
  have f: "fst (calculate_frequencies self (rev c)) = Inr EXPECTED_DIST_2_12"
    using m by (rule cycle_frequencies)
  have cnt: "count_list (rev c) v = count_list (extend_all EXPECTED_DIST_2_12 []) v" for v
    using m by (simp only: flip: count_mset)
  have k: "count_list (rev c) 7 = 6 \<and> count_list (rev c) 2 = 1 \<and> count_list (rev c) 12 = 1"
    by (simp only: cnt expected_expansion) simp
  show ?thesis
    using full_cycle_from_fresh [OF c, of g0] full_cycle_from_empty [OF c] f k
    by (simp only: c prod.case) blast
qed

text \<open>
  Claim C5 (balanced queue invariant). Every queue state reached from a freshly built
  cycle by balanced rolls is a fragment of one cycle: its multiset of values is contained
  in that of the weighted expansion of the table, each value \<open>v\<close> occurs at most
  \<open>weight v\<close> times, and at most 36 values remain. A roll on the empty queue first
  builds a full cycle of 36 values and yields the last of them.
\<close>

theorem reachable_queue_invariant:
  assumes "reachable queue"
  shows "mset queue \<subseteq>#
           mset (concat (map (\<lambda>(number, cnt). replicate (nat cnt) number) EXPECTED_DIST_2_12))
     \<and> (\<forall>v. int (count_list queue v) \<le>
            (case map_of EXPECTED_DIST_2_12 v of Some w \<Rightarrow> w | None \<Rightarrow> 0))
     \<and> length queue \<le> 36
     \<and> (\<forall>g. \<exists>c g'. create_balanced_queue EXPECTED_DIST_2_12 g = (c, g') \<and> length c = 36
            \<and> mset c = mset (concat (map (\<lambda>(number, cnt). replicate (nat cnt) number)
                                       EXPECTED_DIST_2_12))
            \<and> roll_balanced_dice [] g = Inr ((last c, butlast c), g'))"
proof -
  let ?full = "extend_all EXPECTED_DIST_2_12 []"
  have e: "?full = concat (map (\<lambda>(number, cnt). replicate (nat cnt) number) EXPECTED_DIST_2_12)"
    by (simp only: extend_all_append append_Nil)
  have sub: "mset queue \<subseteq># mset ?full" using assms by (rule reachable_subset)
  have cnt: "int (count_list queue v) \<le>
            (case map_of EXPECTED_DIST_2_12 v of Some w \<Rightarrow> w | None \<Rightarrow> 0)" for v
  proof -
    have "count (mset queue) v \<le> count (mset ?full) v"
      using sub by (rule mset_subset_eq_count)
    then have "int (count_list queue v) \<le> int (count_list ?full v)"
      by (simp only: count_mset of_nat_le_iff)
    then show ?thesis by (simp only: expected_weights)
  qed
  have "size (mset queue) \<le> size (mset ?full)" using sub by (rule size_mset_mono)
  then have len: "length queue \<le> 36" by (simp add: expected_expansion)
  have rebuild: "\<exists>c g'. create_balanced_queue EXPECTED_DIST_2_12 g = (c, g') \<and> length c = 36
            \<and> mset c = mset ?full
            \<and> roll_balanced_dice [] g = Inr ((last c, butlast c), g')" for g
  proof -
    obtain c g' where c: "create_balanced_queue EXPECTED_DIST_2_12 g = (c, g')"
      by (cases "create_balanced_queue EXPECTED_DIST_2_12 g")
    then show ?thesis
      using fresh_cycle_length [of g] create_balanced_queue_mset [of EXPECTED_DIST_2_12 g]
      by (simp add: roll_balanced_empty)
  qed
  show ?thesis using sub cnt len rebuild unfolding e by blast
qed

theorem reachable_queue_invariant_witness:
  "reachable [3, 3, 4, 4, 4, 5, 5, 5, 5, 6, 6, 6, 6, 6, 7, 7, 7, 7, 7, 7, 8, 8, 8, 8, 8,
              9, 9, 9, 9, 10, 10, 10, 11, 11, 12]
   \<and> mset [3, 3, 4, 4, 4, 5, 5, 5, 5, 6, 6, 6, 6, 6, 7, 7, 7, 7, 7, 7, 8, 8, 8, 8, 8,
            9, 9, 9, 9, 10, 10, 10, 11, 11, 12]
       \<subseteq># mset (concat (map (\<lambda>(number, cnt). replicate (nat cnt) number) EXPECTED_DIST_2_12))
   \<and> length [3, 3, 4, 4, 4, 5, 5, 5, 5, 6, 6, 6, 6, 6, 7, 7, 7, 7, 7, 7, 8, 8, 8, 8, 8,
              9, 9, 9, 9, 10, 10, 10, 11, 11, 12 :: int] \<le> 36"
proof -
  let ?q = "[3, 3, 4, 4, 4, 5, 5, 5, 5, 6, 6, 6, 6, 6, 7, 7, 7, 7, 7, 7, 8, 8, 8, 8, 8,
             9, 9, 9, 9, 10, 10, 10, 11, 11, 12 :: int]"
  have r0: "reachable (?q @ [2])"
    using reachable.fresh [of "\<lambda>i. 0"] by (simp only: fresh_cycle_zero_tape append.simps)
  have "roll_balanced_dice (?q @ [2]) (\<lambda>i. 0) = Inr ((2, ?q), \<lambda>i. 0)"
    by (rule roll_balanced_nonempty)
  with r0 have r1: "reachable ?q" by (rule reachable.rolled)
  from reachable_queue_invariant [OF r1] r1 show ?thesis by blast
qed

text \<open>
  Claim C3 (length, range and order of the outcomes). For \<open>n \<ge> 1\<close>, simulating \<open>n\<close>
  rolls returns exactly \<open>n\<close> outcomes, each from 2 to 12, with the standard roller on
  every tape and with the balanced roller from every queue of outcome values (a queue of
  the data model holds values from 2 to 12 only). The outcomes are the rolls in the order
  they were made: after \<open>k < n\<close> rolls the results are the first \<open>k\<close> outcomes, and
  outcome \<open>k\<close> is what the roller returns on the tape and the queue threaded so far.
\<close>

theorem simulate_rolls_outcomes:
  assumes "1 \<le> n" and "set queue \<subseteq> {2..12}"
  shows "(\<exists>results g'.
            simulate_rolls standard_roller n [] g = Inr (results, [], g')
          \<and> int (length results) = n \<and> set results \<subseteq> {2..12}
          \<and> (\<forall>k<nat n. \<exists>g_k.
                 simulate_rolls standard_roller (int k) [] g = Inr (take k results, [], g_k)
               \<and> results ! k = fst (roll_standard_dice g_k)))
       \<and> (\<exists>results queue' g'.
            simulate_rolls balanced_roller n [queue] g = Inr (results, [queue'], g')
          \<and> int (length results) = n \<and> set results \<subseteq> {2..12}
          \<and> (\<forall>k<nat n. \<exists>q_k g_k q1 g1.
                 simulate_rolls balanced_roller (int k) [queue] g = Inr (take k results, [q_k], g_k)
               \<and> roll_balanced_dice q_k g_k = Inr ((results ! k, q1), g1)))"
proof (rule conjI)
  obtain rs g' where
    t: "simulate_loop standard_roller (nat n) ([], [], g) = Inr (rs, [], g')"
    and l: "length rs = nat n" and s: "set rs \<subseteq> {2..12}"
    using standard_loop [of "nat n" "[]" g] by auto
  have "\<forall>k<nat n. \<exists>g_k.
          simulate_rolls standard_roller (int k) [] g = Inr (take k rs, [], g_k)
        \<and> rs ! k = fst (roll_standard_dice g_k)"
    using standard_rolls_in_order [OF t] by (simp add: simulate_rolls_def)
  moreover have "int (length rs) = n" using l assms(1) by simp
  ultimately show "\<exists>results g'.
            simulate_rolls standard_roller n [] g = Inr (results, [], g')
          \<and> int (length results) = n \<and> set results \<subseteq> {2..12}
          \<and> (\<forall>k<nat n. \<exists>g_k.
                 simulate_rolls standard_roller (int k) [] g = Inr (take k results, [], g_k)
               \<and> results ! k = fst (roll_standard_dice g_k))"
    using t s unfolding simulate_rolls_def by blast
next
  obtain rs q' g' where
    t: "simulate_loop balanced_roller (nat n) ([], [queue], g) = Inr (rs, [q'], g')"
    and l: "length rs = nat n" and s: "set rs \<subseteq> {2..12}"
    using balanced_loop_range [OF assms(2), of "nat n" "[]" g] by auto
  have "\<forall>k<nat n. \<exists>q_k g_k q1 g1.
          simulate_rolls balanced_roller (int k) [queue] g = Inr (take k rs, [q_k], g_k)
        \<and> roll_balanced_dice q_k g_k = Inr ((rs ! k, q1), g1)"
    using balanced_rolls_in_order [OF t] by (simp add: simulate_rolls_def)
  moreover have "int (length rs) = n" using l assms(1) by simp
  ultimately show "\<exists>results queue' g'.
            simulate_rolls balanced_roller n [queue] g = Inr (results, [queue'], g')
          \<and> int (length results) = n \<and> set results \<subseteq> {2..12}
          \<and> (\<forall>k<nat n. \<exists>q_k g_k q1 g1.
                 simulate_rolls balanced_roller (int k) [queue] g = Inr (take k results, [q_k], g_k)
               \<and> roll_balanced_dice q_k g_k = Inr ((results ! k, q1), g1))"
    using t s unfolding simulate_rolls_def by blast
qed

theorem simulate_rolls_outcomes_witness:
  "(1::int) \<le> 3 \<and> set [3, 7 :: int] \<subseteq> {2..12}
   \<and> (\<exists>results g'.
          simulate_rolls standard_roller 3 [] (\<lambda>i. i) = Inr (results, [], g')
        \<and> int (length results) = 3 \<and> set results \<subseteq> {2..12})
   \<and> (\<exists>results queue' g'.
          simulate_rolls balanced_roller 3 [[3, 7]] (\<lambda>i. i) = Inr (results, [queue'], g')
        \<and> int (length results) = 3 \<and> set results \<subseteq> {2..12})"
proof -
  have h1: "(1::int) \<le> 3" by simp
  have h2: "set [3, 7 :: int] \<subseteq> {2..12}" by simp
  from simulate_rolls_outcomes [OF h1 h2, of "\<lambda>i. i"] h1 h2 show ?thesis by blast
qed

text \<open>
  Claim C2 (overlay conflict), evaluated on the code. From the initial window, a
  simulation of one roll with the overlay box ticked plots both series and sets
  \<open>overlay_active\<close>. The user then unticks the box and starts a simulation again without
  clearing: the code shows the message \<^verbatim>\<open>Clear required\<close> and goes on, since the branch
  that shows it has no \<^verbatim>\<open>return\<close>. It clears the axes, resets \<open>overlay_active\<close> and
  the set of plotted dice, runs a new standard simulation and replaces the frequency
  display, so the state is not what it was before the request.
\<close>

theorem overlay_conflict_falls_through:
  "(let counts = [(2, 1), (3, 0), (4, 0), (5, 0), (6, 0), (7, 0), (8, 0), (9, 0), (10, 0),
                  (11, 0), (12, 0)];
        lines = [Entry 2 1, Entry 3 0, Entry 4 0, Entry 5 0, Entry 6 0, Entry 7 0, Entry 8 0,
                 Entry 9 0, Entry 10 0, Entry 11 0, Entry 12 0, Spacing];
        two_series =
          \<lparr>overlay_active = True, entry_rolls = Some 1, dice_choice = ''Standard'',
           overlay_choice = True,
           ax = \<lparr>bars = [(''Standard dice'', counts), (''Balanced dice'', counts)],
                 xlabel = ''Dice roll'', ylabel = ''Frequency'',
                 title = ''Dice roll simulation'', legend = True\<rparr>,
           canvas = \<lparr>bars = [(''Standard dice'', counts), (''Balanced dice'', counts)],
                 xlabel = ''Dice roll'', ylabel = ''Frequency'',
                 title = ''Dice roll simulation'', legend = True\<rparr>,
           text_freq = Header ''Standard dice'' # lines @ Header ''Balanced dice'' # lines,
           plotted_dice = Some {''Standard'', ''Balanced''}, messages = []\<rparr>;
        replotted =
          \<lparr>overlay_active = False, entry_rolls = Some 1, dice_choice = ''Standard'',
           overlay_choice = False,
           ax = \<lparr>bars = [(''Standard dice'', counts)],
                 xlabel = ''Dice roll'', ylabel = ''Frequency'',
                 title = ''Dice roll simulation'', legend = True\<rparr>,
           canvas = \<lparr>bars = [(''Standard dice'', counts)],
                 xlabel = ''Dice roll'', ylabel = ''Frequency'',
                 title = ''Dice roll simulation'', legend = True\<rparr>,
           text_freq = Header ''Standard dice'' # lines,
           plotted_dice = Some {''Standard''},
           messages =
             [Showerror ''Clear required'' ''Please clear the graph before plotting again.'']\<rparr>
    in start_simulation (init_gui\<lparr>entry_rolls := Some 1, overlay_choice := True\<rparr>) (\<lambda>i. 0)
         = Inr (two_series, \<lambda>i. 0)
     \<and> start_simulation (two_series\<lparr>overlay_choice := False\<rparr>) (\<lambda>i. 0)
         = Inr (replotted, \<lambda>i. 0)
     \<and> replotted \<noteq> two_series\<lparr>overlay_choice := False\<rparr>)"
  unfolding Let_def using first_simulation_plots_two_series conflicting_simulation_replots by simp

end
